theory Spec2Isabelle
  imports Main
begin

section \<open>The search-results dropdown: \<open>src/lib/components/SearchResults/index.js\<close>\<close>

text \<open>
  The component is one class, \<open>SearchResults\<close>, with five observable properties and a
  handful of methods. The methods are embedded as functions on a record of the
  component's state. What the methods do to the world outside the component
  (assigning \<open>window.location.href\<close>, requesting a scroll after the next render) is
  appended to a log of effects inside that record, so that "no navigation happened"
  is a statement about the log.
\<close>

subsection \<open>JavaScript numbers, as far as the cursor needs them\<close>

text \<open>
  \<open>cursor\<close> is declared \<open>{type: Number}\<close>. The component computes it from \<open>-1\<close>, \<open>0\<close>,
  \<open>+ 1\<close>, \<open>- 1\<close>, the array length and \<open>%\<close>, so its values are integers or \<open>NaN\<close>
  (\<open>x % 0\<close> is \<open>NaN\<close> in JavaScript). Integers are unbounded here: an array length
  is below \<open>2 ^ 32\<close>, far from where doubles stop being exact. Negative zero is
  identified with zero: \<open>===\<close>, property lookup and string conversion do not tell
  them apart.
\<close>

datatype number = Num int | NaN

text \<open>\<open>a + b\<close> and \<open>a - b\<close> on numbers: \<open>NaN\<close> is absorbing.\<close>

fun num_add :: "number \<Rightarrow> number \<Rightarrow> number" where
  "num_add (Num a) (Num b) = Num (a + b)"
| "num_add _ _ = NaN"

fun num_sub :: "number \<Rightarrow> number \<Rightarrow> number" where
  "num_sub (Num a) (Num b) = Num (a - b)"
| "num_sub _ _ = NaN"

text \<open>
  \<open>a % b\<close>: the remainder of the division truncated towards zero, so the result has
  the sign of the dividend (\<open>-1 % 3\<close> is \<open>-1\<close>, where HOL's \<open>mod\<close> gives \<open>2\<close>); \<open>NaN\<close> when
  the divisor is zero.
\<close>

fun num_rem :: "number \<Rightarrow> number \<Rightarrow> number" where
  "num_rem (Num a) (Num b) =
     (if b = 0 then NaN else Num (sgn a * (\<bar>a\<bar> mod \<bar>b\<bar>)))"
| "num_rem _ _ = NaN"

subsection \<open>Hits and the component's state\<close>

text \<open>
  A hit is an object of the search provider. The component reads \<open>hit.url\<close> and
  \<open>hit._highlightResult.title.value\<close>. Each step of that path can be absent on a
  JavaScript object, and the code treats the steps differently, so each is an
  \<open>option\<close>: \<open>None\<close> is \<open>undefined\<close>.
\<close>

record title_highlight =
  title_value :: "string option"

record highlight_result =
  title :: "title_highlight option"

record hit =
  url :: string
  highlightResult :: "highlight_result option"

datatype effect = Navigate string | ScrollHitIntoView

record search_results =
  hits_internal :: "hit list"
  showHits :: bool
  cursor :: number
  query :: string
  aria_activedescendant :: "string option"
  effects :: "effect list"

text \<open>
  \<open>set hits(hits)\<close>: stores the array in \<open>hits_\<close> and resets the cursor. The field
  \<open>hits_\<close> of the source is \<open>hits_internal\<close> here (a name cannot end in an underscore).
\<close>

definition set_hits :: "hit list \<Rightarrow> search_results \<Rightarrow> search_results" where
  "set_hits hits s = s\<lparr>hits_internal := hits, cursor := Num (- 1)\<rparr>"

text \<open>
  The constructor leaves \<open>hits_ = []\<close>, \<open>showHits = false\<close>, \<open>cursor = -1\<close> and
  \<open>query = ''\<close> (its first assignment, \<open>this.hits = []\<close>, runs the setter above and
  is overwritten by the ones that follow). A new element has no
  \<open>aria-activedescendant\<close> attribute and nothing has happened yet.
\<close>

definition constructor :: search_results where
  "constructor =
     \<lparr>hits_internal = [], showHits = False, cursor = Num (- 1), query = [],
      aria_activedescendant = None, effects = []\<rparr>"

subsection \<open>Keyboard navigation\<close>

text \<open>
  \<open>scrollHitIntoView\<close> waits for the next render and then scrolls the active link
  into view. The step that runs now only files the request.
\<close>

definition scrollHitIntoView :: "search_results \<Rightarrow> search_results" where
  "scrollHitIntoView s = s\<lparr>effects := effects s @ [ScrollHitIntoView]\<rparr>"

text \<open>\<open>navigateToHit({url})\<close>: \<open>window.location.href = url\<close>.\<close>

definition navigateToHit :: "hit \<Rightarrow> search_results \<Rightarrow> search_results" where
  "navigateToHit h s = s\<lparr>effects := effects s @ [Navigate (url h)]\<rparr>"

text \<open>\<open>this.hits_.length\<close>, as a number.\<close>

definition hits_length :: "search_results \<Rightarrow> number" where
  "hits_length s = Num (int (length (hits_internal s)))"

definition firstHit :: "search_results \<Rightarrow> search_results" where
  "firstHit s = scrollHitIntoView (s\<lparr>cursor := Num 0\<rparr>)"

definition lastHit :: "search_results \<Rightarrow> search_results" where
  "lastHit s = scrollHitIntoView (s\<lparr>cursor := num_sub (hits_length s) (Num 1)\<rparr>)"

definition nextHit :: "search_results \<Rightarrow> search_results" where
  "nextHit s =
     scrollHitIntoView
       (s\<lparr>cursor := num_rem (num_add (cursor s) (Num 1)) (hits_length s)\<rparr>)"

definition prevHit :: "search_results \<Rightarrow> search_results" where
  "prevHit s =
     scrollHitIntoView
       (if cursor s = Num (- 1)
        then s\<lparr>cursor := num_sub (hits_length s) (Num 1)\<rparr>
        else s\<lparr>cursor :=
               num_rem (num_add (num_sub (cursor s) (Num 1)) (hits_length s))
                 (hits_length s)\<rparr>)"

text \<open>
  \<open>this.hits_[this.cursor]\<close>: the element when the cursor is an index of the array,
  \<open>undefined\<close> otherwise (for \<open>-1\<close>, for an index past the end, for \<open>NaN\<close>).
\<close>

fun hit_at :: "hit list \<Rightarrow> number \<Rightarrow> hit option" where
  "hit_at hs (Num c) = (if 0 \<le> c \<and> c < int (length hs) then Some (hs ! nat c) else None)"
| "hit_at hs NaN = None"

text \<open>
  \<open>navigate(key)\<close>: the \<open>switch\<close> on the key name. A hit is an object, hence truthy,
  so \<open>if (hit)\<close> asks whether the lookup found one.
\<close>

definition navigate :: "string \<Rightarrow> search_results \<Rightarrow> search_results" where
  "navigate key s =
     (if key = ''Home'' then firstHit s
      else if key = ''End'' then lastHit s
      else if key = ''Up'' \<or> key = ''ArrowUp'' then prevHit s
      else if key = ''Down'' \<or> key = ''ArrowDown'' then nextHit s
      else if key = ''Enter'' then
        (case hit_at (hits_internal s) (cursor s) of
           Some h \<Rightarrow> navigateToHit h s
         | None \<Rightarrow> s)
      else s)"

text \<open>
  The range invariant of the spec's data model: \<open>-1 \<le> cursor < length\<close>.
\<close>

fun cursor_in_range :: "search_results \<Rightarrow> bool" where
  "cursor_in_range s =
     (case cursor s of
        Num c \<Rightarrow> - 1 \<le> c \<and> c < int (length (hits_internal s))
      | NaN \<Rightarrow> False)"

subsection \<open>Reflecting the cursor to \<open>aria-activedescendant\<close>\<close>

text \<open>
  String conversion of a number, as a template literal does it. A non-negative
  integer below \<open>10 ^ 21\<close> is written in decimal digits, without leading zeros.
\<close>

fun string_of_nat :: "nat \<Rightarrow> string" where
  "string_of_nat n =
     (if n < 10 then [''0123456789'' ! n]
      else string_of_nat (n div 10) @ [''0123456789'' ! (n mod 10)])"

declare string_of_nat.simps [simp del]








subsection \<open>Strings\<close>

text \<open>
  A \<open>char\<close> stands for a code point below 256, so a \<open>string\<close> is a JavaScript string
  over Latin-1. The backtick is code point \<open>0x60\<close>, the apostrophe \<open>0x27\<close>, the double
  quote \<open>0x22\<close>.
\<close>

text \<open>
  \<open>String.prototype.trim\<close>: strips white space and line terminators at both ends.
  Below 256 these are TAB, LF, VT, FF, CR, SPACE and NO-BREAK SPACE.
\<close>

definition is_white_space :: "char \<Rightarrow> bool" where
  "is_white_space c = (of_char c \<in> {9, 10, 11, 12, 13, 32, 160 :: nat})"

definition trim :: "string \<Rightarrow> string" where
  "trim s = rev (dropWhile is_white_space (rev (dropWhile is_white_space s)))"

text \<open>
  \<open>encodeURIComponent\<close>: letters, digits and \<open>- _ . ! ~ * ' ( )\<close> stay; every other
  code point is written as the bytes of its UTF-8 encoding, each as \<open>%XX\<close> with
  upper-case digits. A code point from 128 to 255 has two bytes.
\<close>

definition hex_digit :: "nat \<Rightarrow> char" where
  "hex_digit n = ''0123456789ABCDEF'' ! n"

definition percent_byte :: "nat \<Rightarrow> string" where
  "percent_byte b = [CHR ''%'', hex_digit (b div 16), hex_digit (b mod 16)]"

definition uri_unreserved :: "char \<Rightarrow> bool" where
  "uri_unreserved c =
     (c \<in> set (''ABCDEFGHIJKLMNOPQRSTUVWXYZabcdefghijklmnopqrstuvwxyz0123456789-_.!~*()''
               @ [CHR 0x27]))"

definition encode_char :: "char \<Rightarrow> string" where
  "encode_char c =
     (if uri_unreserved c then [c]
      else if (of_char c :: nat) < 128 then percent_byte (of_char c)
      else percent_byte (192 + of_char c div 64) @ percent_byte (128 + of_char c mod 64))"

definition encodeURIComponent :: "string \<Rightarrow> string" where
  "encodeURIComponent s = concat (map encode_char s)"

text \<open>
  Replacing every occurrence of a pattern, left to right, as \<open>replace\<close> with a global
  regular expression of literal characters does.
\<close>

function replaceAll :: "string \<Rightarrow> string \<Rightarrow> string \<Rightarrow> string" where
  "replaceAll pat rep [] = []"
| "replaceAll pat rep (c # cs) =
     (if pat \<noteq> [] \<and> take (length pat) (c # cs) = pat
      then rep @ replaceAll pat rep (drop (length pat) (c # cs))
      else c # replaceAll pat rep cs)"
  by pat_completeness auto
termination
  by (relation "measure (\<lambda>(pat, rep, s). length s)") auto

text \<open>
  Modelled from the spec: the replacement that \<open>escapeHtml\<close> makes for one character.
  \<open>escapeHtml\<close> belongs to \<open>lib/utils/escape-html\<close>, which the component imports and
  which is not among the sources. The spec says that all markup in the title is
  escaped; the five characters that carry markup in HTML are replaced by their
  entities.
\<close>

definition escape_char :: "char \<Rightarrow> string" where
  "escape_char c =
     (if c = CHR ''&'' then ''&amp;''
      else if c = CHR ''<'' then ''&lt;''
      else if c = CHR ''>'' then ''&gt;''
      else if c = CHR 0x22 then ''&quot;''
      else if c = CHR 0x27 then ''&#39;''
      else [c])"

text \<open>
  Modelled from the spec: \<open>escapeHtml\<close> of \<open>lib/utils/escape-html\<close>, every character
  of the string escaped in turn.
\<close>

definition escapeHtml :: "string \<Rightarrow> string" where
  "escapeHtml str = concat (map escape_char str)"

text \<open>
  Modelled from the spec: \<open>allowHtml\<close> of \<open>lib/utils/escape-html\<close>, not among the
  sources either. The spec says that the escaped form of the one allowed tag is
  replaced back by its literal form: the opening tag and the closing tag.
\<close>

definition allowHtml :: "string \<Rightarrow> string \<Rightarrow> string" where
  "allowHtml str tag =
     replaceAll (''&lt;/'' @ tag @ ''&gt;'') (''</'' @ tag @ ''>'')
       (replaceAll (''&lt;'' @ tag @ ''&gt;'') (''<'' @ tag @ ''>'') str)"

subsection \<open>Rendering\<close>

text \<open>
  A template result is a list of nodes. Text is kept as the template writes it,
  without the white space around it; \<open>UnsafeHTML\<close> is a string handed to the
  \<open>unsafeHTML\<close> directive, which the browser parses as markup.
\<close>

datatype node =
    Element string "(string \<times> string) list" "node list"
  | Text string
  | UnsafeHTML string

datatype error = TypeError

text \<open>
  The three statements of \<open>itemsTemplate\<close> that turn the highlighted title into the
  markup of the link: escape, allow \<open>strong\<close>, strip backticks.
\<close>

definition title_markup :: "string \<Rightarrow> string" where
  "title_markup v = filter (\<lambda>c. c \<noteq> CHR 0x60) (allowHtml (escapeHtml v) ''strong'')"

text \<open>
  The callback of \<open>this.hits_.map\<close>. Reading \<open>.title\<close> of an absent
  \<open>_highlightResult\<close> throws a \<open>TypeError\<close>; an absent \<open>title\<close>, an absent \<open>value\<close> and
  the empty string are falsy and give the empty template. The index \<open>idx\<close> is an
  index of an array, which has fewer than \<open>2 ^ 32\<close> elements, so \<open>${idx}\<close> is its
  decimal numeral.
\<close>

definition item_template :: "number \<Rightarrow> hit \<Rightarrow> nat \<Rightarrow> error + node list" where
  "item_template cur h idx =
     (case highlightResult h of
        None \<Rightarrow> Inl TypeError
      | Some hr \<Rightarrow>
          (case title hr of
             None \<Rightarrow> Inr []
           | Some t \<Rightarrow>
               (case title_value t of
                  None \<Rightarrow> Inr []
                | Some v \<Rightarrow>
                    if v = [] then Inr []
                    else Inr
                      [Element ''li'' [(''class'', ''web-search-popout__item'')]
                        [Element ''a''
                          [(''id'', ''web-search-popout__link--'' @ string_of_nat idx),
                           (''class'', ''web-search-popout__link '' @
                              (if Num (int idx) = cur then ''web-search-popout__link--active''
                               else [])),
                           (''aria-selected'', if Num (int idx) = cur then ''true'' else ''false''),
                           (''tabindex'', ''-1''),
                           (''href'', url h)]
                          [UnsafeHTML (title_markup v)]]])))"

text \<open>
  \<open>Array.prototype.map\<close> with the index: the callback runs on the elements in order,
  and the first exception ends the call.
\<close>

fun map_index :: "('a \<Rightarrow> nat \<Rightarrow> error + 'b) \<Rightarrow> 'a list \<Rightarrow> nat \<Rightarrow> error + 'b list" where
  "map_index f [] idx = Inr []"
| "map_index f (x # xs) idx =
     (case f x idx of
        Inl e \<Rightarrow> Inl e
      | Inr y \<Rightarrow>
          (case map_index f xs (Suc idx) of
             Inl e \<Rightarrow> Inl e
           | Inr ys \<Rightarrow> Inr (y # ys)))"

definition itemsTemplate :: "search_results \<Rightarrow> error + node list list" where
  "itemsTemplate s = map_index (item_template (cursor s)) (hits_internal s) 0"

definition render :: "search_results \<Rightarrow> error + node list" where
  "render s =
     (if \<not> showHits s then
        Inr [Element ''div''
               [(''id'', ''web-search-popout__list''), (''role'', ''listbox''),
                (''aria-hidden'', ''true'')] []]
      else if length (hits_internal s) = 0 then
        (if query s = [] then Inr []
         else
           (let q = ''web.dev '' @ trim (query s);
                searchUrl = ''https://google.com/search?q='' @ encodeURIComponent q
            in Inr
              [Element ''div'' [(''class'', ''web-search-popout'')]
                [Element ''div'' [(''class'', ''web-search-popout__heading'')]
                  [Text ''There are no suggestions for your query&mdash;try'',
                   Element ''a''
                     [(''data-category'', ''web.dev''),
                      (''data-label'', ''search, open Google''),
                      (''data-action'', ''click''),
                      (''target'', ''_blank''),
                      (''tabindex'', ''-1''),
                      (''href'', searchUrl)]
                     [Text ''Google search'']]]]))
      else
        (case itemsTemplate s of
           Inl e \<Rightarrow> Inl e
         | Inr items \<Rightarrow>
             Inr
               [Element ''div'' [(''class'', ''web-search-popout'')]
                 [Element ''div'' [(''class'', ''web-search-popout__heading'')]
                    [Text ''Results''],
                  Element ''ul''
                    [(''id'', ''web-search-popout__list''),
                     (''class'', ''web-search-popout__list''),
                     (''role'', ''listbox'')]
                    (concat items)]]))"

text \<open>Reading a rendered tree: its links, and an attribute of an element.\<close>

fun anchors :: "node \<Rightarrow> node list" where
  "anchors (Element tag attrs kids) =
     (if tag = ''a'' then [Element tag attrs kids] else []) @ concat (map anchors kids)"
| "anchors (Text t) = []"
| "anchors (UnsafeHTML h) = []"

fun attribute :: "string \<Rightarrow> node \<Rightarrow> string option" where
  "attribute name (Element tag attrs kids) = map_of attrs name"
| "attribute name (Text t) = None"
| "attribute name (UnsafeHTML h) = None"

text \<open>
  The highlight title of the spec's data model: the string at
  \<open>_highlightResult.title.value\<close>, present and not empty.
\<close>

definition has_highlight_title :: "hit \<Rightarrow> bool" where
  "has_highlight_title h =
     (case highlightResult h of
        None \<Rightarrow> False
      | Some hr \<Rightarrow>
          (case title hr of
             None \<Rightarrow> False
           | Some t \<Rightarrow>
               (case title_value t of None \<Rightarrow> False | Some v \<Rightarrow> v \<noteq> [])))"

text \<open>A well-formed hit, for the examples: a destination and a highlighted title.\<close>

definition hit_with_title :: "string \<Rightarrow> string \<Rightarrow> hit" where
  "hit_with_title u t =
     \<lparr>url = u, highlightResult = Some \<lparr>title = Some \<lparr>title_value = Some t\<rparr>\<rparr>\<rparr>"

text \<open>
  An example state: the element is shown, the user typed \<open>a\<close>, and two hits arrived.
\<close>

definition two_hits :: search_results where
  "two_hits =
     set_hits [hit_with_title ''/alpha'' ''Alpha'', hit_with_title ''/beta'' ''Beta'']
       (constructor\<lparr>showHits := True, query := ''a''\<rparr>)"

text \<open>
  A second example state, with three hits: one well-formed, one without a \<open>title\<close> in
  its \<open>_highlightResult\<close>, one whose title is the empty string.
\<close>

definition mixed_hits :: search_results where
  "mixed_hits =
     set_hits
       [hit_with_title ''/alpha'' ''Alpha'',
        \<lparr>url = ''/beta'', highlightResult = Some \<lparr>title = None\<rparr>\<rparr>,
        hit_with_title ''/gamma'' []]
       (constructor\<lparr>showHits := True, query := ''a''\<rparr>)"

section \<open>Properties\<close>

subsection \<open>The cursor under the navigation operations\<close>

text \<open>
  On a non-negative dividend and a positive divisor, JavaScript's \<open>%\<close> is \<open>mod\<close>.
\<close>

lemma num_rem_nonneg:
  "0 \<le> a \<Longrightarrow> 0 < b \<Longrightarrow> num_rem (Num a) (Num b) = Num (a mod b)"
  by (cases "a = 0") simp_all

lemma hits_internal_scroll [simp]: "hits_internal (scrollHitIntoView s) = hits_internal s"
  by (simp add: scrollHitIntoView_def)

lemma cursor_scroll [simp]: "cursor (scrollHitIntoView s) = cursor s"
  by (simp add: scrollHitIntoView_def)

lemma cursor_firstHit: "cursor (firstHit s) = Num 0"
  by (simp add: firstHit_def)

lemma cursor_lastHit: "cursor (lastHit s) = Num (int (length (hits_internal s)) - 1)"
  by (simp add: lastHit_def hits_length_def)

lemma cursor_nextHit:
  assumes "hits_internal s \<noteq> []" and "cursor s = Num c" and "- 1 \<le> c"
  shows "cursor (nextHit s) = Num ((c + 1) mod int (length (hits_internal s)))"
proof -
  have "num_rem (Num (c + 1)) (Num (int (length (hits_internal s))))
          = Num ((c + 1) mod int (length (hits_internal s)))"
    using assms(1,3) by (intro num_rem_nonneg) simp_all
  then show ?thesis
    using assms(2) by (simp add: nextHit_def hits_length_def del: num_rem.simps)
qed

lemma cursor_prevHit:
  assumes "hits_internal s \<noteq> []" and "cursor s = Num c" and "0 \<le> c"
  shows "cursor (prevHit s) =
           Num ((c - 1 + int (length (hits_internal s))) mod int (length (hits_internal s)))"
proof -
  have "0 < length (hits_internal s)" using assms(1) by simp
  then have "0 \<le> c - 1 + int (length (hits_internal s))" using assms(3) by linarith
  then have "num_rem (Num (c - 1 + int (length (hits_internal s))))
                (Num (int (length (hits_internal s))))
          = Num ((c - 1 + int (length (hits_internal s))) mod int (length (hits_internal s)))"
    using assms(1) by (intro num_rem_nonneg) simp_all
  moreover have "cursor s \<noteq> Num (- 1)" using assms(2,3) by simp
  ultimately show ?thesis
    using assms(2) by (simp add: prevHit_def hits_length_def del: num_rem.simps)
qed

lemma cursor_prevHit_none:
  assumes "cursor s = Num (- 1)"
  shows "cursor (prevHit s) = Num (int (length (hits_internal s)) - 1)"
  using assms by (simp add: prevHit_def hits_length_def)

lemma hits_nav [simp]:
  "hits_internal (firstHit s) = hits_internal s"
  "hits_internal (lastHit s) = hits_internal s"
  "hits_internal (nextHit s) = hits_internal s"
  "hits_internal (prevHit s) = hits_internal s"
  by (simp_all add: firstHit_def lastHit_def nextHit_def prevHit_def)

text \<open>
  C1. On a non-empty ResultSet, a cursor with \<open>-1 \<le> cursor < length\<close> is again in that
  range after each of the four movement operations \<open>firstHit\<close>, \<open>lastHit\<close>, \<open>nextHit\<close>
  and \<open>prevHit\<close>.
\<close>

theorem navigation_preserves_range:
  assumes "hits_internal s \<noteq> []" and "cursor_in_range s"
  shows "cursor_in_range (firstHit s) \<and> cursor_in_range (lastHit s) \<and>
         cursor_in_range (nextHit s) \<and> cursor_in_range (prevHit s)"
proof -
  obtain c where c: "cursor s = Num c" "- 1 \<le> c" "c < int (length (hits_internal s))"
    using assms(2) by (cases "cursor s") simp_all
  have n: "0 < int (length (hits_internal s))" using assms(1) by simp
  have "cursor_in_range (firstHit s)"
    using n by (simp add: cursor_firstHit)
  moreover have "cursor_in_range (lastHit s)"
    using n by (simp add: cursor_lastHit)
  moreover have "cursor_in_range (nextHit s)"
  proof -
    have "0 \<le> (c + 1) mod int (length (hits_internal s))"
      and "(c + 1) mod int (length (hits_internal s)) < int (length (hits_internal s))"
      using n by simp_all
    then show ?thesis
      by (simp add: cursor_nextHit [OF assms(1) c(1) c(2)])
  qed
  moreover have "cursor_in_range (prevHit s)"
  proof (cases "c = - 1")
    case True
    then show ?thesis using n c by (simp add: cursor_prevHit_none)
  next
    case False
    then have "0 \<le> c" using c by simp
    moreover have "0 \<le> (c - 1 + int (length (hits_internal s))) mod int (length (hits_internal s))"
      and "(c - 1 + int (length (hits_internal s))) mod int (length (hits_internal s))
             < int (length (hits_internal s))"
      using n by simp_all
    ultimately show ?thesis
      by (simp add: cursor_prevHit [OF assms(1) c(1)] del: mod_add_self2)
  qed
  ultimately show ?thesis by blast
qed

theorem navigation_preserves_range_witness:
  "hits_internal (two_hits\<lparr>cursor := Num 1\<rparr>) \<noteq> [] \<and>
   cursor_in_range (two_hits\<lparr>cursor := Num 1\<rparr>) \<and>
   cursor_in_range (firstHit (two_hits\<lparr>cursor := Num 1\<rparr>)) \<and>
   cursor_in_range (lastHit (two_hits\<lparr>cursor := Num 1\<rparr>)) \<and>
   cursor_in_range (nextHit (two_hits\<lparr>cursor := Num 1\<rparr>)) \<and>
   cursor_in_range (prevHit (two_hits\<lparr>cursor := Num 1\<rparr>))"
proof -
  have h: "hits_internal (two_hits\<lparr>cursor := Num 1\<rparr>) \<noteq> []"
    by (simp add: two_hits_def set_hits_def)
  have r: "cursor_in_range (two_hits\<lparr>cursor := Num 1\<rparr>)"
    by (simp add: two_hits_def set_hits_def)
  show ?thesis
    using h r navigation_preserves_range [OF h r] by blast
qed

text \<open>
  C2. Whatever the cursor was and whatever array is assigned (empty or not), the
  cursor is \<open>-1\<close> after the \<open>hits\<close> setter, and the array is the new ResultSet.
\<close>

theorem set_hits_resets_cursor:
  "cursor (set_hits hits s) = Num (- 1) \<and> hits_internal (set_hits hits s) = hits"
  by (simp add: set_hits_def)

text \<open>
  C4. On a non-empty ResultSet of length \<open>n\<close>, \<open>prevHit\<close> from the cursor \<open>-1\<close> and
  \<open>prevHit\<close> from the cursor \<open>0\<close> both leave the cursor on \<open>n - 1\<close>, the last index.
\<close>

theorem prevHit_lands_on_last:
  assumes "hits_internal s \<noteq> []"
    and "cursor s = Num (- 1) \<or> cursor s = Num 0"
  shows "cursor (prevHit s) = Num (int (length (hits_internal s)) - 1)"
proof -
  let ?n = "int (length (hits_internal s))"
  have "0 \<le> ?n - 1" and "?n - 1 < ?n" using assms(1) by simp_all
  then have wrap: "(?n - 1) mod ?n = ?n - 1" by (rule mod_pos_pos_trivial)
  have "cursor (prevHit s) = Num (?n - 1)" if "cursor s = Num 0"
  proof -
    have "cursor (prevHit s) = Num ((0 - 1 + ?n) mod ?n)"
      using cursor_prevHit [OF assms(1) that] by simp
    also have "0 - 1 + ?n = ?n - 1" by simp
    finally show ?thesis using wrap by simp
  qed
  then show ?thesis
    using assms(2) by (auto simp add: cursor_prevHit_none)
qed

theorem prevHit_lands_on_last_witness:
  "hits_internal two_hits \<noteq> [] \<and> cursor two_hits = Num (- 1) \<and>
   cursor (prevHit two_hits) = Num 1 \<and>
   cursor (two_hits\<lparr>cursor := Num 0\<rparr>) = Num 0 \<and>
   cursor (prevHit (two_hits\<lparr>cursor := Num 0\<rparr>)) = Num 1"
proof -
  have h: "hits_internal two_hits \<noteq> []" and c: "cursor two_hits = Num (- 1)"
    by (simp_all add: two_hits_def set_hits_def)
  have h0: "hits_internal (two_hits\<lparr>cursor := Num 0\<rparr>) \<noteq> []"
    using h by simp
  have n: "int (length (hits_internal two_hits)) - 1 = 1"
    by (simp add: two_hits_def set_hits_def)
  have "cursor (prevHit two_hits) = Num 1"
    using prevHit_lands_on_last [OF h] c n by simp
  moreover have "cursor (prevHit (two_hits\<lparr>cursor := Num 0\<rparr>)) = Num 1"
    using prevHit_lands_on_last [OF h0] n by simp
  ultimately show ?thesis using h c by simp
qed

text \<open>
  Iterating \<open>nextHit\<close>: after \<open>k + 1\<close> steps from a cursor \<open>c \<ge> -1\<close> the cursor is
  \<open>(c + 1 + k) mod n\<close>, and the ResultSet is untouched.
\<close>

lemma nextHit_iterate:
  assumes "hits_internal s \<noteq> []" and "cursor s = Num c" and "- 1 \<le> c"
  shows "cursor ((nextHit ^^ Suc k) s) = Num ((c + 1 + int k) mod int (length (hits_internal s))) \<and>
         hits_internal ((nextHit ^^ Suc k) s) = hits_internal s"
proof (induction k)
  case 0
  show ?case using cursor_nextHit [OF assms] by simp
next
  case (Suc k)
  let ?t = "(nextHit ^^ Suc k) s"
  let ?n = "int (length (hits_internal s))"
  have len: "hits_internal ?t = hits_internal s"
    using Suc.IH by blast
  then have h: "hits_internal ?t \<noteq> []"
    using assms(1) by simp
  have c: "cursor ?t = Num ((c + 1 + int k) mod ?n)" using Suc.IH by blast
  have "0 < ?n" using assms(1) by simp
  then have "0 \<le> (c + 1 + int k) mod ?n" by simp
  then have lo: "- 1 \<le> (c + 1 + int k) mod ?n" by linarith
  have "cursor (nextHit ?t) = Num (((c + 1 + int k) mod ?n + 1) mod ?n)"
    using cursor_nextHit [OF h c lo] len by simp
  also have "((c + 1 + int k) mod ?n + 1) mod ?n = (c + 1 + int (Suc k)) mod ?n"
    by (simp add: mod_add_left_eq add.assoc)
  finally have "cursor ((nextHit ^^ Suc (Suc k)) s) = Num ((c + 1 + int (Suc k)) mod ?n)"
    by simp
  moreover have "hits_internal ((nextHit ^^ Suc (Suc k)) s) = hits_internal s"
    using len by simp
  ultimately show ?case by blast
qed

text \<open>
  C3, as amended. On a non-empty ResultSet of length \<open>n\<close>, \<open>nextHit\<close> applied \<open>n\<close>
  times returns every cursor \<open>c\<close> with \<open>0 \<le> c < n\<close> to \<open>c\<close>. From \<open>-1\<close>, "none
  selected", the \<open>n\<close> steps end on \<open>n - 1\<close>: the first step enters the cycle
  \<open>0, \<dots>, n - 1\<close> and no step leaves it.
\<close>

theorem nextHit_cycle:
  assumes "hits_internal s \<noteq> []" and "cursor s = Num c"
    and "- 1 \<le> c" and "c < int (length (hits_internal s))"
  shows "cursor ((nextHit ^^ length (hits_internal s)) s) =
           Num (if c = - 1 then int (length (hits_internal s)) - 1 else c)"
proof -
  let ?n = "int (length (hits_internal s))"
  obtain k where k: "length (hits_internal s) = Suc k"
    using assms(1) by (cases "hits_internal s") simp_all
  have "cursor ((nextHit ^^ Suc k) s) = Num ((c + 1 + int k) mod ?n)"
    using nextHit_iterate [OF assms(1-3)] by blast
  also have "c + 1 + int k = c + ?n" using k by simp
  finally have step: "cursor ((nextHit ^^ length (hits_internal s)) s) = Num ((c + ?n) mod ?n)"
    using k by simp
  show ?thesis
  proof (cases "c = - 1")
    case True
    have "0 \<le> ?n - 1" and "?n - 1 < ?n" using assms(1) by simp_all
    then have "(?n - 1) mod ?n = ?n - 1" by (rule mod_pos_pos_trivial)
    moreover have "c + ?n = ?n - 1" using True by simp
    ultimately show ?thesis using step True by simp
  next
    case False
    then have "0 \<le> c" using assms(3) by simp
    then have "c mod ?n = c" using assms(4) by (rule mod_pos_pos_trivial)
    then show ?thesis using step False by simp
  qed
qed

theorem nextHit_cycle_witness:
  "hits_internal (two_hits\<lparr>cursor := Num 1\<rparr>) \<noteq> [] \<and>
   cursor (two_hits\<lparr>cursor := Num 1\<rparr>) = Num 1 \<and>
   cursor ((nextHit ^^ length (hits_internal (two_hits\<lparr>cursor := Num 1\<rparr>)))
             (two_hits\<lparr>cursor := Num 1\<rparr>)) = Num 1 \<and>
   cursor two_hits = Num (- 1) \<and>
   cursor ((nextHit ^^ length (hits_internal two_hits)) two_hits) = Num 1"
proof -
  let ?s = "two_hits\<lparr>cursor := Num 1\<rparr>"
  have h: "hits_internal ?s \<noteq> []" and c: "cursor ?s = Num 1"
    and b: "1 < int (length (hits_internal ?s))"
    by (simp_all add: two_hits_def set_hits_def)
  have h': "hits_internal two_hits \<noteq> []" and c': "cursor two_hits = Num (- 1)"
    and b': "- 1 < int (length (hits_internal two_hits))"
    and n: "int (length (hits_internal two_hits)) - 1 = 1"
    by (simp_all add: two_hits_def set_hits_def)
  have "cursor ((nextHit ^^ length (hits_internal ?s)) ?s) = Num 1"
    using nextHit_cycle [OF h c _ b] by simp
  moreover have "cursor ((nextHit ^^ length (hits_internal two_hits)) two_hits) = Num 1"
    using nextHit_cycle [OF h' c' _ b'] n by simp
  ultimately show ?thesis using h c c' by simp
qed

text \<open>
  The claim as stated includes the start \<open>-1\<close>. With one hit and the cursor on \<open>-1\<close>
  (the state right after the hits arrived), one \<open>nextHit\<close> leaves the cursor on \<open>0\<close>.
\<close>

theorem nextHit_cycle_from_none_counterexample:
  "cursor (set_hits [hit_with_title ''/alpha'' ''Alpha''] constructor) = Num (- 1) \<and>
   cursor ((nextHit ^^ length (hits_internal (set_hits [hit_with_title ''/alpha'' ''Alpha''] constructor)))
             (set_hits [hit_with_title ''/alpha'' ''Alpha''] constructor)) = Num 0 \<and>
   cursor ((nextHit ^^ length (hits_internal (set_hits [hit_with_title ''/alpha'' ''Alpha''] constructor)))
             (set_hits [hit_with_title ''/alpha'' ''Alpha''] constructor))
     \<noteq> cursor (set_hits [hit_with_title ''/alpha'' ''Alpha''] constructor)"
  by (simp add: set_hits_def constructor_def nextHit_def hits_length_def)

text \<open>
  C5. \<open>navigate('Enter')\<close> with the cursor on \<open>-1\<close>, or on an index at or past the end
  of the ResultSet, changes nothing: the state after it is the state before it, in
  every field, so no \<open>Navigate\<close> effect was added to the log.
\<close>

theorem enter_without_hit_is_noop:
  assumes "cursor s = Num c"
    and "c = - 1 \<or> int (length (hits_internal s)) \<le> c"
  shows "navigate ''Enter'' s = s"
  using assms by (auto simp add: navigate_def)

theorem enter_without_hit_is_noop_witness:
  "cursor two_hits = Num (- 1) \<and> navigate ''Enter'' two_hits = two_hits \<and>
   cursor (two_hits\<lparr>cursor := Num 2\<rparr>) = Num 2 \<and>
   int (length (hits_internal (two_hits\<lparr>cursor := Num 2\<rparr>))) \<le> 2 \<and>
   navigate ''Enter'' (two_hits\<lparr>cursor := Num 2\<rparr>) = two_hits\<lparr>cursor := Num 2\<rparr>"
proof -
  have c: "cursor two_hits = Num (- 1)"
    by (simp add: two_hits_def set_hits_def)
  have c2: "cursor (two_hits\<lparr>cursor := Num 2\<rparr>) = Num 2"
    by simp
  have l2: "int (length (hits_internal (two_hits\<lparr>cursor := Num 2\<rparr>))) \<le> 2"
    by (simp add: two_hits_def set_hits_def)
  show ?thesis
    using c c2 l2 enter_without_hit_is_noop [OF c] enter_without_hit_is_noop [OF c2] by blast
qed

text \<open>
  C10. On the empty ResultSet, \<open>navigate('End')\<close> leaves the cursor on \<open>-1\<close> (it is
  \<open>length - 1\<close>), the value of "no selection", and \<open>navigate('Home')\<close> leaves it on \<open>0\<close>,
  which is no index of the empty list. Neither is the identity on the cursor: \<open>End\<close>
  keeps it only when it was \<open>-1\<close>, \<open>Home\<close> only when it was \<open>0\<close>.
\<close>

theorem first_last_on_empty:
  assumes "hits_internal s = []"
  shows "cursor (navigate ''End'' s) = Num (- 1) \<and>
         cursor (navigate ''Home'' s) = Num 0 \<and>
         hit_at (hits_internal s) (cursor (navigate ''Home'' s)) = None \<and>
         (cursor (navigate ''End'' s) = cursor s) = (cursor s = Num (- 1)) \<and>
         (cursor (navigate ''Home'' s) = cursor s) = (cursor s = Num 0)"
  using assms by (auto simp add: navigate_def cursor_firstHit cursor_lastHit)

theorem first_last_on_empty_witness:
  "hits_internal constructor = [] \<and>
   cursor (navigate ''End'' constructor) = Num (- 1) \<and>
   cursor (navigate ''Home'' constructor) = Num 0 \<and>
   cursor (navigate ''Home'' constructor) \<noteq> cursor constructor"
proof -
  have h: "hits_internal constructor = []" and c: "cursor constructor = Num (- 1)"
    by (simp_all add: constructor_def)
  show ?thesis
    using h c first_last_on_empty [OF h] by simp
qed

subsection \<open>The list of items\<close>

text \<open>
  What \<open>map_index\<close> returns when it returns: one result per element, the callback's
  result at that element and its index.
\<close>

lemma map_index_nth:
  "map_index f xs k = Inr ys \<Longrightarrow>
     length ys = length xs \<and> (\<forall>i < length xs. f (xs ! i) (k + i) = Inr (ys ! i))"
proof (induction xs arbitrary: k ys)
  case Nil
  then show ?case by simp
next
  case (Cons x xs)
  from Cons.prems obtain y ys' where
    y: "f x k = Inr y" and ys': "map_index f xs (Suc k) = Inr ys'" and ys: "ys = y # ys'"
    by (auto split: sum.splits)
  from Cons.IH [OF ys'] have len: "length ys' = length xs"
    and nth: "\<And>i. i < length xs \<Longrightarrow> f (xs ! i) (Suc k + i) = Inr (ys' ! i)"
    by simp_all
  have "f ((x # xs) ! i) (k + i) = Inr (ys ! i)" if "i < length (x # xs)" for i
  proof (cases i)
    case 0
    then show ?thesis using y ys by simp
  next
    case (Suc j)
    then show ?thesis using nth [of j] that ys by simp
  qed
  then show ?case using len ys by simp
qed

lemma map_index_total:
  "(\<And>x i. x \<in> set xs \<Longrightarrow> \<exists>y. f x i = Inr y) \<Longrightarrow> \<exists>ys. map_index f xs k = Inr ys"
proof (induction xs arbitrary: k)
  case Nil
  then show ?case by simp
next
  case (Cons x xs)
  obtain y where y: "f x k = Inr y" using Cons.prems [of x k] by auto
  obtain ys where ys: "map_index f xs (Suc k) = Inr ys"
    using Cons.IH [of "Suc k"] Cons.prems by auto
  show ?case using y ys by simp
qed

text \<open>The three outcomes of the callback on a hit that has a \<open>_highlightResult\<close>.\<close>

lemma item_template_present:
  "has_highlight_title h \<Longrightarrow>
     \<exists>r. item_template cur h idx = Inr r \<and>
         map (attribute ''href'') (concat (map anchors r)) = [Some (url h)]"
  by (auto simp add: item_template_def has_highlight_title_def split: option.splits)

lemma item_template_absent:
  "highlightResult h \<noteq> None \<Longrightarrow> \<not> has_highlight_title h \<Longrightarrow> item_template cur h idx = Inr []"
  by (auto simp add: item_template_def has_highlight_title_def split: option.splits)


lemma links_of_items:
  "\<forall>h \<in> set xs. highlightResult h \<noteq> None \<Longrightarrow>
   map_index (item_template cur) xs k = Inr items \<Longrightarrow>
   map (attribute ''href'') (concat (map anchors (concat items)))
     = map (\<lambda>h. Some (url h)) (filter has_highlight_title xs)"
proof (induction xs arbitrary: k items)
  case Nil
  then show ?case by auto
next
  case (Cons x xs)
  from Cons.prems(2) obtain y ys where
    y: "item_template cur x k = Inr y" and ys: "map_index (item_template cur) xs (Suc k) = Inr ys"
    and items: "items = y # ys"
    by (auto split: sum.splits)
  have hr: "highlightResult x \<noteq> None" using Cons.prems(1) by simp
  have rest: "map (attribute ''href'') (concat (map anchors (concat ys)))
     = map (\<lambda>h. Some (url h)) (filter has_highlight_title xs)"
    using Cons.IH [OF _ ys] Cons.prems(1) by simp
  have first: "map (attribute ''href'') (concat (map anchors y))
     = (if has_highlight_title x then [Some (url x)] else [])"
  proof (cases "has_highlight_title x")
    case True
    then show ?thesis using item_template_present [OF True, of cur k] y by auto
  next
    case False
    then show ?thesis using item_template_absent [OF hr False, of cur k] y by simp
  qed
  show ?case using first rest items by simp
qed


subsection \<open>The active descendant\<close>














subsection \<open>Titles\<close>

text \<open>
  C6. The title \<open>foo <strong>bar</strong> <script>baz</script>\<close> becomes
  \<open>foo <strong>bar</strong> &lt;script&gt;baz&lt;/script&gt;\<close>: the \<open>strong\<close> tag is
  markup again, the \<open>script\<close> tag is escaped text. No title's markup contains a
  backtick. The first half rests on \<open>escapeHtml\<close> and \<open>allowHtml\<close> as modelled from the
  spec; the second half on the component's own \<open>replace\<close> alone.
\<close>

theorem title_markup_allows_strong_only:
  "title_markup ''foo <strong>bar</strong> <script>baz</script>''
     = ''foo <strong>bar</strong> &lt;script&gt;baz&lt;/script&gt;'' \<and>
   (\<forall>t. CHR 0x60 \<notin> set (title_markup t))"
proof -
  have "title_markup ''foo <strong>bar</strong> <script>baz</script>''
          = ''foo <strong>bar</strong> &lt;script&gt;baz&lt;/script&gt;''"
    by code_simp
  moreover have "CHR 0x60 \<notin> set (title_markup t)" for t
    by (simp add: title_markup_def)
  ultimately show ?thesis by blast
qed

subsection \<open>The fallback view\<close>

text \<open>
  C8. Shown, with no hits and the query \<open>cats\<close>, the component renders exactly one
  link. Its \<open>href\<close> is \<open>https://google.com/search?q=\<close> followed by the URL-encoding of
  \<open>web.dev cats\<close>, which is \<open>web.dev%20cats\<close>, and its \<open>target\<close> is \<open>_blank\<close>.
\<close>

theorem fallback_link_for_cats:
  assumes "showHits s" and "hits_internal s = []" and "query s = ''cats''"
  shows "\<exists>nodes. render s = Inr nodes \<and>
           map (\<lambda>a. (attribute ''href'' a, attribute ''target'' a)) (concat (map anchors nodes))
             = [(Some (''https://google.com/search?q='' @ encodeURIComponent ''web.dev cats''),
                 Some ''_blank'')] \<and>
           encodeURIComponent ''web.dev cats'' = ''web.dev%20cats''"
proof -
  have t: "trim ''cats'' = ''cats''" by code_simp
  have e: "encodeURIComponent ''web.dev cats'' = ''web.dev%20cats''" by code_simp
  show ?thesis using assms t e
    by (simp add: render_def)
qed

theorem fallback_link_for_cats_witness:
  "showHits (constructor\<lparr>showHits := True, query := ''cats''\<rparr>) \<and>
   hits_internal (constructor\<lparr>showHits := True, query := ''cats''\<rparr>) = [] \<and>
   query (constructor\<lparr>showHits := True, query := ''cats''\<rparr>) = ''cats'' \<and>
   (\<exists>nodes. render (constructor\<lparr>showHits := True, query := ''cats''\<rparr>) = Inr nodes \<and>
      map (\<lambda>a. (attribute ''href'' a, attribute ''target'' a)) (concat (map anchors nodes))
        = [(Some ''https://google.com/search?q=web.dev%20cats'', Some ''_blank'')])"
proof -
  let ?s = "constructor\<lparr>showHits := True, query := ''cats''\<rparr>"
  have a: "showHits ?s" and b: "hits_internal ?s = []" and c: "query ?s = ''cats''"
    by (simp_all add: constructor_def)
  show ?thesis
    using a b c fallback_link_for_cats [OF a b c] by auto
qed

subsection \<open>Hits without a title\<close>

text \<open>
  C9, as amended. If every hit of the ResultSet carries a \<open>_highlightResult\<close> object,
  \<open>itemsTemplate\<close> and \<open>render\<close> return without an exception; a hit whose highlight
  title is missing or empty yields the empty template, and a hit with a non-empty
  highlight title yields one link, to the hit's \<open>url\<close>. In the rendered list the
  links are those of the hits with a title, in order.
\<close>

theorem hits_without_title_are_skipped:
  assumes "\<forall>h \<in> set (hits_internal s). highlightResult h \<noteq> None"
  shows "\<exists>items. itemsTemplate s = Inr items \<and>
           length items = length (hits_internal s) \<and>
           (\<forall>i < length (hits_internal s).
              if has_highlight_title (hits_internal s ! i)
              then map (attribute ''href'') (concat (map anchors (items ! i)))
                     = [Some (url (hits_internal s ! i))]
              else items ! i = []) \<and>
           (\<exists>nodes. render s = Inr nodes \<and>
              (showHits s \<and> hits_internal s \<noteq> [] \<longrightarrow>
                 map (attribute ''href'') (concat (map anchors nodes))
                   = map (\<lambda>h. Some (url h)) (filter has_highlight_title (hits_internal s))))"
proof -
  have "\<exists>y. item_template (cursor s) x i = Inr y" if "x \<in> set (hits_internal s)" for x i
  proof (cases "has_highlight_title x")
    case True
    then show ?thesis using item_template_present [of x "cursor s" i] by blast
  next
    case False
    then show ?thesis using item_template_absent [of x "cursor s" i] assms that by blast
  qed
  then obtain items where items: "itemsTemplate s = Inr items"
    unfolding itemsTemplate_def using map_index_total [of "hits_internal s" "item_template (cursor s)" 0]
    by blast
  then have m: "map_index (item_template (cursor s)) (hits_internal s) 0 = Inr items"
    by (simp add: itemsTemplate_def)
  from map_index_nth [OF m] have len: "length items = length (hits_internal s)"
    and nth: "\<And>i. i < length (hits_internal s) \<Longrightarrow>
                item_template (cursor s) (hits_internal s ! i) i = Inr (items ! i)"
    by simp_all
  have each: "if has_highlight_title (hits_internal s ! i)
              then map (attribute ''href'') (concat (map anchors (items ! i)))
                     = [Some (url (hits_internal s ! i))]
              else items ! i = []" if i: "i < length (hits_internal s)" for i
  proof -
    let ?h = "hits_internal s ! i"
    have hr: "highlightResult ?h \<noteq> None" using assms i by simp
    show ?thesis
    proof (cases "has_highlight_title ?h")
      case True
      from item_template_present [OF True, of "cursor s" i] nth [OF i]
      show ?thesis using True by auto
    next
      case False
      from item_template_absent [OF hr False, of "cursor s" i] nth [OF i]
      show ?thesis using False by simp
    qed
  qed
  have links: "map (attribute ''href'') (concat (map anchors (concat items)))
                 = map (\<lambda>h. Some (url h)) (filter has_highlight_title (hits_internal s))"
    using links_of_items [OF assms m] .
  have "\<exists>nodes. render s = Inr nodes \<and>
          (showHits s \<and> hits_internal s \<noteq> [] \<longrightarrow>
             map (attribute ''href'') (concat (map anchors nodes))
               = map (\<lambda>h. Some (url h)) (filter has_highlight_title (hits_internal s)))"
    using items links by (simp add: render_def Let_def)
  then show ?thesis using items len each by blast
qed

theorem hits_without_title_are_skipped_witness:
  "list_all (\<lambda>h. highlightResult h \<noteq> None) (hits_internal mixed_hits) \<and>
   (\<exists>items. itemsTemplate mixed_hits = Inr items \<and> length items = 3 \<and>
      map (attribute ''href'') (concat (map anchors (items ! 0))) = [Some ''/alpha''] \<and>
      items ! 1 = [] \<and> items ! 2 = []) \<and>
   (\<exists>nodes. render mixed_hits = Inr nodes \<and>
      map (attribute ''href'') (concat (map anchors nodes)) = [Some ''/alpha''])"
proof -
  have hs: "hits_internal mixed_hits =
     [hit_with_title ''/alpha'' ''Alpha'',
        \<lparr>url = ''/beta'', highlightResult = Some \<lparr>title = None\<rparr>\<rparr>,
        hit_with_title ''/gamma'' []]"
    by (simp add: mixed_hits_def set_hits_def)
  have shown: "showHits mixed_hits"
    by (simp add: mixed_hits_def set_hits_def constructor_def)
  have all: "\<forall>h \<in> set (hits_internal mixed_hits). highlightResult h \<noteq> None"
    by (simp add: hs hit_with_title_def)
  have t0: "has_highlight_title (hits_internal mixed_hits ! 0)"
    and t1: "\<not> has_highlight_title (hits_internal mixed_hits ! 1)"
    and t2: "\<not> has_highlight_title (hits_internal mixed_hits ! 2)"
    and u0: "url (hits_internal mixed_hits ! 0) = ''/alpha''"
    by (simp_all add: hs hit_with_title_def has_highlight_title_def)
  have titled: "map (\<lambda>h. Some (url h)) (filter has_highlight_title (hits_internal mixed_hits))
                  = [Some ''/alpha'']"
    by (simp add: hs hit_with_title_def has_highlight_title_def)
  from hits_without_title_are_skipped [OF all] obtain items nodes where
    items: "itemsTemplate mixed_hits = Inr items"
    and len: "length items = length (hits_internal mixed_hits)"
    and each: "\<And>i. i < length (hits_internal mixed_hits) \<Longrightarrow>
              if has_highlight_title (hits_internal mixed_hits ! i)
              then map (attribute ''href'') (concat (map anchors (items ! i)))
                     = [Some (url (hits_internal mixed_hits ! i))]
              else items ! i = []"
    and r: "render mixed_hits = Inr nodes"
    and l: "showHits mixed_hits \<and> hits_internal mixed_hits \<noteq> [] \<longrightarrow>
              map (attribute ''href'') (concat (map anchors nodes))
                = map (\<lambda>h. Some (url h)) (filter has_highlight_title (hits_internal mixed_hits))"
    by blast
  have l3: "length (hits_internal mixed_hits) = 3" by (simp add: hs)
  have "map (attribute ''href'') (concat (map anchors (items ! 0))) = [Some ''/alpha'']"
    using each [of 0] t0 u0 l3 by simp
  moreover have "items ! 1 = []" using each [of 1] t1 l3 by simp
  moreover have "items ! 2 = []" using each [of 2] t2 l3 by simp
  moreover have "map (attribute ''href'') (concat (map anchors nodes)) = [Some ''/alpha'']"
    using l shown titled hs by simp
  ultimately show ?thesis using items len l3 r all by (simp add: list_all_iff)
qed

text \<open>
  The claim as stated covers every hit whose highlight title is missing. A hit with
  no \<open>_highlightResult\<close> at all is one, and on it the callback throws.
\<close>

theorem missing_highlight_result_counterexample:
  "\<not> has_highlight_title \<lparr>url = ''/alpha'', highlightResult = None\<rparr> \<and>
   render (set_hits [\<lparr>url = ''/alpha'', highlightResult = None\<rparr>]
             (constructor\<lparr>showHits := True\<rparr>)) = Inl TypeError"
  by (simp add: has_highlight_title_def render_def itemsTemplate_def item_template_def
        set_hits_def constructor_def)

end
